theory Spec2Isabelle
  imports Complex_Main
begin

section \<open>Python string and list primitives used by the code indexer\<close>

text \<open>
  Text is a \<open>string\<close>: a list of characters, each standing for one code point below 256.
  The functions below are the operations of Python's \<open>str\<close> and \<open>list\<close> that
  \<open>code_parser.py\<close> calls.
\<close>

definition NL :: char where
  "NL = CHR 0x0A"

text \<open>\<open>s.split('\n')\<close>: never empty, one more piece than there are newlines.\<close>

fun split_nl :: "string \<Rightarrow> string list" where
  "split_nl [] = [[]]"
| "split_nl (c # cs) =
     (if c = NL then [] # split_nl cs
      else (case split_nl cs of [] \<Rightarrow> [[c]] | l # ls \<Rightarrow> (c # l) # ls))"

text \<open>\<open>'\n'.join(xs)\<close>.\<close>

fun join_nl :: "string list \<Rightarrow> string" where
  "join_nl [] = []"
| "join_nl [x] = x"
| "join_nl (x # y # ys) = x @ NL # join_nl (y # ys)"

text \<open>\<open>str.isspace\<close> on one character below 256.\<close>

definition isspace :: "char \<Rightarrow> bool" where
  "isspace c = (c \<in> set [CHR 0x09, CHR 0x0A, CHR 0x0B, CHR 0x0C, CHR 0x0D,
                           CHR 0x1C, CHR 0x1D, CHR 0x1E, CHR 0x1F, CHR 0x20,
                           CHR 0x85, CHR 0xA0])"

definition lstrip :: "string \<Rightarrow> string" where
  "lstrip s = dropWhile isspace s"

definition rstrip :: "string \<Rightarrow> string" where
  "rstrip s = rev (dropWhile isspace (rev s))"

definition strip :: "string \<Rightarrow> string" where
  "strip s = rstrip (lstrip s)"

text \<open>\<open>s.startswith(p)\<close>.\<close>

fun startswith :: "string \<Rightarrow> string \<Rightarrow> bool" where
  "startswith s [] = True"
| "startswith [] (p # ps) = False"
| "startswith (c # cs) (p # ps) = (c = p \<and> startswith cs ps)"

text \<open>\<open>p in s\<close> for strings: \<open>p\<close> occurs in \<open>s\<close> as a contiguous piece.\<close>

fun contains :: "string \<Rightarrow> string \<Rightarrow> bool" where
  "contains [] p = (p = [])"
| "contains (c # cs) p = (startswith (c # cs) p \<or> contains cs p)"

text \<open>\<open>s.count(c)\<close> for a single character, as a Python integer.\<close>

definition count_char :: "string \<Rightarrow> char \<Rightarrow> int" where
  "count_char s c = int (count_list s c)"

text \<open>
  Python slicing \<open>xs[a:b]\<close> and \<open>xs[a:]\<close>: a negative index counts from the end,
  and every index is clamped to the list, so a slice never raises.
\<close>

definition slice_index :: "'a list \<Rightarrow> int \<Rightarrow> nat" where
  "slice_index xs i =
     (let n = int (length xs)
      in nat (if i < 0 then max 0 (n + i) else min i n))"

definition slice :: "'a list \<Rightarrow> int \<Rightarrow> int \<Rightarrow> 'a list" where
  "slice xs a b = take (slice_index xs b - slice_index xs a) (drop (slice_index xs a) xs)"

definition slice_from :: "'a list \<Rightarrow> int \<Rightarrow> 'a list" where
  "slice_from xs a = drop (slice_index xs a) xs"

section \<open>Chunks\<close>

text \<open>
  A chunk is the dictionary the parsers build, with the keys \<open>content\<close>,
  \<open>start_line\<close>, \<open>end_line\<close>, \<open>type\<close> and \<open>language\<close>. Line numbers are
  Python integers.
\<close>

record chunk =
  content :: string
  start_line :: int
  end_line :: int
  type :: string
  language :: string

section \<open>The generic parser\<close>

definition max_chunk_size :: int where
  "max_chunk_size = 100"

definition generic_chunk :: "string list \<Rightarrow> string \<Rightarrow> int \<Rightarrow> chunk" where
  "generic_chunk lines lang i =
     \<lparr>content = join_nl (slice lines i (i + max_chunk_size)),
      start_line = i + 1,
      end_line = min (i + max_chunk_size) (int (length lines)),
      type = ''code'',
      language = lang\<rparr>"

text \<open>The loop \<open>for i in range(0, len(lines), max_chunk_size)\<close>, started at \<open>i\<close>.\<close>

function generic_loop :: "string list \<Rightarrow> string \<Rightarrow> int \<Rightarrow> chunk list \<Rightarrow> chunk list" where
  "generic_loop lines lang i chunks =
     (if i < int (length lines)
      then generic_loop lines lang (i + max_chunk_size) (chunks @ [generic_chunk lines lang i])
      else chunks)"
  by pat_completeness auto
termination
  by (relation "measure (\<lambda>(lines, lang, i, chunks). nat (int (length lines) - i))")
     (auto simp: max_chunk_size_def)

definition parse_generic :: "string \<Rightarrow> string \<Rightarrow> chunk list" where
  "parse_generic text lang = generic_loop (split_nl text) lang 0 []"

section \<open>The Python parser\<close>

text \<open>
  The scanners keep the list of chunks found so far, the kind of the chunk that is open
  (\<open>None\<close> when no chunk is open; the kinds assigned are non-empty strings, so Python's
  truth test on \<open>current_chunk\<close> is the test against \<open>None\<close>) and its first line.
\<close>

record scan_state =
  chunks :: "chunk list"
  current_chunk :: "string option"
  chunk_start :: int

record py_state = scan_state +
  current_indent :: int

definition is_definition :: "string \<Rightarrow> bool" where
  "is_definition stripped =
     (startswith stripped ''def '' \<or> startswith stripped ''class '' \<or>
      startswith stripped ''async def '')"

text \<open>One iteration of \<open>for i, line in enumerate(lines, 1)\<close> in \<open>_parse_python\<close>.\<close>

definition python_step :: "string list \<Rightarrow> py_state \<Rightarrow> int \<Rightarrow> string \<Rightarrow> py_state" where
  "python_step lines st i line =
     (let stripped = lstrip line in
      if stripped = [] \<or> startswith stripped ''#'' then st
      else
        let indent = int (length line) - int (length stripped) in
        if is_definition stripped then
          st\<lparr>chunks :=
               (case current_chunk st of
                  None \<Rightarrow> chunks st
                | Some k \<Rightarrow> chunks st @
                    [\<lparr>content = join_nl (slice lines (chunk_start st - 1) (i - 1)),
                      start_line = chunk_start st,
                      end_line = i - 1,
                      type = k,
                      language = ''python''\<rparr>]),
             current_chunk := Some (if contains stripped ''def'' then ''function'' else ''class''),
             chunk_start := i,
             current_indent := indent\<rparr>
        else if current_chunk st \<noteq> None \<and> indent \<le> current_indent st \<and> stripped \<noteq> [] then
          st\<lparr>chunks :=
               (case current_chunk st of
                  None \<Rightarrow> chunks st
                | Some k \<Rightarrow> chunks st @
                    [\<lparr>content = join_nl (slice lines (chunk_start st - 1) i),
                      start_line = chunk_start st,
                      end_line = i,
                      type = k,
                      language = ''python''\<rparr>]),
             current_chunk := None\<rparr>
        else st)"

fun python_loop :: "string list \<Rightarrow> int \<Rightarrow> string list \<Rightarrow> py_state \<Rightarrow> py_state" where
  "python_loop lines i [] st = st"
| "python_loop lines i (line # rest) st =
     python_loop lines (i + 1) rest (python_step lines st i line)"

definition parse_python :: "string \<Rightarrow> chunk list" where
  "parse_python text =
     (let lines = split_nl text;
          st = python_loop lines 1 lines
                 \<lparr>chunks = [], current_chunk = None, chunk_start = 0, current_indent = 0\<rparr>;
          found =
            (case current_chunk st of
               None \<Rightarrow> chunks st
             | Some k \<Rightarrow> chunks st @
                 [\<lparr>content = join_nl (slice_from lines (chunk_start st - 1)),
                   start_line = chunk_start st,
                   end_line = int (length lines),
                   type = k,
                   language = ''python''\<rparr>])
      in if found = []
         then [\<lparr>content = text, start_line = 1, end_line = int (length lines),
                type = ''file'', language = ''python''\<rparr>]
         else found)"

section \<open>The JavaScript and TypeScript parser\<close>

record js_state = scan_state +
  brace_count :: int

definition js_keywords :: "string list" where
  "js_keywords = [''function '', ''class '', ''const '', ''let '', ''export '', ''async function'']"

text \<open>One iteration of the loop of \<open>_parse_javascript\<close>.\<close>

definition javascript_step ::
  "string list \<Rightarrow> string \<Rightarrow> js_state \<Rightarrow> int \<Rightarrow> string \<Rightarrow> js_state" where
  "javascript_step lines lang st i line =
     (let stripped = strip line;
          st1 =
            (if list_ex (contains stripped) js_keywords then
               st\<lparr>chunks :=
                    (case current_chunk st of
                       None \<Rightarrow> chunks st
                     | Some k \<Rightarrow> chunks st @
                         [\<lparr>content = join_nl (slice lines (chunk_start st - 1) (i - 1)),
                           start_line = chunk_start st,
                           end_line = i - 1,
                           type = k,
                           language = lang\<rparr>]),
                  current_chunk :=
                    Some (if contains stripped ''function'' then ''function''
                          else if contains stripped ''class'' then ''class''
                          else ''variable''),
                  chunk_start := i,
                  brace_count := count_char stripped (CHR ''{'') - count_char stripped (CHR ''}'')\<rparr>
             else st);
          st2 = st1\<lparr>brace_count :=
                      brace_count st1 + (count_char line (CHR ''{'') - count_char line (CHR ''}''))\<rparr>
      in if current_chunk st2 \<noteq> None \<and> brace_count st2 = 0 \<and> CHR ''{'' \<in> set line then
           st2\<lparr>chunks :=
                 (case current_chunk st2 of
                    None \<Rightarrow> chunks st2
                  | Some k \<Rightarrow> chunks st2 @
                      [\<lparr>content = join_nl (slice lines (chunk_start st2 - 1) i),
                        start_line = chunk_start st2,
                        end_line = i,
                        type = k,
                        language = lang\<rparr>]),
               current_chunk := None\<rparr>
         else st2)"

fun javascript_loop ::
  "string list \<Rightarrow> string \<Rightarrow> int \<Rightarrow> string list \<Rightarrow> js_state \<Rightarrow> js_state" where
  "javascript_loop lines lang i [] st = st"
| "javascript_loop lines lang i (line # rest) st =
     javascript_loop lines lang (i + 1) rest (javascript_step lines lang st i line)"

definition parse_javascript :: "string \<Rightarrow> string \<Rightarrow> chunk list" where
  "parse_javascript text lang =
     (let lines = split_nl text;
          st = javascript_loop lines lang 1 lines
                 \<lparr>chunks = [], current_chunk = None, chunk_start = 0, brace_count = 0\<rparr>;
          found =
            (case current_chunk st of
               None \<Rightarrow> chunks st
             | Some k \<Rightarrow> chunks st @
                 [\<lparr>content = join_nl (slice_from lines (chunk_start st - 1)),
                   start_line = chunk_start st,
                   end_line = int (length lines),
                   type = k,
                   language = lang\<rparr>])
      in if found = []
         then [\<lparr>content = text, start_line = 1, end_line = int (length lines),
                type = ''file'', language = lang\<rparr>]
         else found)"

section \<open>Parsing a file\<close>

text \<open>
  An exception is a value: \<open>Exception msg\<close> is an exception whose text \<open>str(e)\<close> is
  \<open>msg\<close>; a computation that may raise returns \<open>exn + 'a\<close>, with \<open>Inl\<close> for the
  exception.
\<close>

datatype exn = Exception string

definition str_exn :: "exn \<Rightarrow> string" where
  "str_exn e = (case e of Exception msg \<Rightarrow> msg)"

datatype level = INFO | WARNING | ERROR

text \<open>A call of the structured logger: level, event, and the keyword arguments.\<close>

datatype log_entry = Log level string "(string \<times> string) list"

text \<open>
  Of the \<open>Path\<close> handed to \<open>parse_file\<close> the parser uses \<open>str(file_path)\<close>, its
  \<open>suffix\<close> and what \<open>read_text\<close> returns or raises.
\<close>

record source_file =
  path_str :: string
  suffix :: string
  read_text :: "exn + string"

definition ext_to_lang :: "(string \<times> string) list" where
  "ext_to_lang =
     [(''.py'', ''python''), (''.js'', ''javascript''), (''.jsx'', ''javascript''),
      (''.ts'', ''typescript''), (''.tsx'', ''typescript''), (''.java'', ''java''),
      (''.go'', ''go''), (''.rs'', ''rust''), (''.cpp'', ''cpp''), (''.c'', ''c''),
      (''.h'', ''c''), (''.hpp'', ''cpp''), (''.cs'', ''csharp''), (''.rb'', ''ruby''),
      (''.php'', ''php''), (''.swift'', ''swift''), (''.kt'', ''kotlin''),
      (''.scala'', ''scala''), (''.clj'', ''clojure''), (''.sh'', ''bash''),
      (''.bash'', ''bash''), (''.zsh'', ''bash''), (''.yaml'', ''yaml''),
      (''.yml'', ''yaml''), (''.json'', ''json''), (''.toml'', ''toml''),
      (''.md'', ''markdown''), (''.rst'', ''rst'')]"

definition detect_language :: "source_file \<Rightarrow> string" where
  "detect_language f =
     (case map_of ext_to_lang (suffix f) of None \<Rightarrow> ''unknown'' | Some lang \<Rightarrow> lang)"

definition parse_java :: "string \<Rightarrow> chunk list" where
  "parse_java text = parse_generic text ''java''"

definition parse_go :: "string \<Rightarrow> chunk list" where
  "parse_go text = parse_generic text ''go''"

definition parse_rust :: "string \<Rightarrow> chunk list" where
  "parse_rust text = parse_generic text ''rust''"

text \<open>The dispatch on the detected language, once the file has been read.\<close>

definition parse_content :: "source_file \<Rightarrow> string \<Rightarrow> chunk list" where
  "parse_content f text =
     (let lang = detect_language f in
      if lang = ''python'' then parse_python text
      else if lang \<in> set [''javascript'', ''typescript''] then parse_javascript text lang
      else if lang = ''java'' then parse_java text
      else if lang = ''go'' then parse_go text
      else if lang = ''rust'' then parse_rust text
      else parse_generic text lang)"

text \<open>The body of the \<open>try\<close> in \<open>parse_file\<close>.\<close>

definition parse_file_try :: "source_file \<Rightarrow> exn + chunk list" where
  "parse_file_try f =
     (case read_text f of
        Inl e \<Rightarrow> Inl e
      | Inr text \<Rightarrow> Inr (parse_content f text))"

text \<open>
  \<open>parse_file\<close> with its handler \<open>except Exception\<close>: the log entries written, and
  the chunks returned or the exception that leaves the function.
\<close>

definition parse_file :: "source_file \<Rightarrow> log_entry list \<times> (exn + chunk list)" where
  "parse_file f =
     (case parse_file_try f of
        Inr cs \<Rightarrow> ([], Inr cs)
      | Inl e \<Rightarrow>
          ([Log WARNING ''Failed to parse file''
              [(''file'', path_str f), (''error'', str_exn e)]],
           Inr []))"

section \<open>Point identifiers\<close>

text \<open>\<open>str(n)\<close> for a Python integer: its decimal digits, with a sign when negative.\<close>

fun digits :: "nat \<Rightarrow> string" where
  "digits n =
     (if n < 10 then [''0123456789'' ! n]
      else digits (n div 10) @ [''0123456789'' ! (n mod 10)])"

declare digits.simps [simp del]

definition str_int :: "int \<Rightarrow> string" where
  "str_int i = (if i < 0 then CHR ''-'' # digits (nat (- i)) else digits (nat i))"

text \<open>
  \<open>int(s, 16)\<close> on a string of hexadecimal digits, which is what \<open>hexdigest\<close> returns;
  on any other string the model raises.
\<close>

definition hex_value :: "char \<Rightarrow> nat option" where
  "hex_value c = map_of (zip ''0123456789abcdefABCDEF'' ([0..<16] @ [10..<16])) c"

fun hex_acc :: "nat \<Rightarrow> string \<Rightarrow> nat option" where
  "hex_acc a [] = Some a"
| "hex_acc a (c # cs) =
     (case hex_value c of None \<Rightarrow> None | Some d \<Rightarrow> hex_acc (16 * a + d) cs)"

definition int_base16 :: "string \<Rightarrow> exn + int" where
  "int_base16 s =
     (if s = [] then Inl (Exception ''invalid literal for int() with base 16'')
      else (case hex_acc 0 s of
              None \<Rightarrow> Inl (Exception ''invalid literal for int() with base 16'')
            | Some n \<Rightarrow> Inr (int n)))"

text \<open>
  The identifier \<open>perform_indexing\<close> gives the point of a chunk. The hash is
  \<open>hashlib\<close>'s, a parameter here: \<open>md5_hexdigest s\<close> stands for
  \<open>hashlib.md5(s.encode()).hexdigest()\<close>.
\<close>

definition point_id :: "(string \<Rightarrow> string) \<Rightarrow> source_file \<Rightarrow> chunk \<Rightarrow> exn + int" where
  "point_id md5_hexdigest f c =
     int_base16
       (slice (md5_hexdigest
                 (path_str f @ '':'' @ str_int (start_line c) @ '':'' @ str_int (end_line c)))
              0 8)"

section \<open>Embeddings\<close>

type_synonym vector = "real list"

text \<open>
  The embedding service is a parameter: \<open>api model prompt\<close> is the outcome of the
  \<open>POST /api/embeddings\<close>, of \<open>raise_for_status\<close> and of decoding the reply: an
  exception, or the value of the reply's key \<open>embedding\<close>, \<open>None\<close> when the reply has
  no such key.
\<close>

type_synonym embeddings_api = "string \<Rightarrow> string \<Rightarrow> exn + vector option"

definition embedding_model :: string where
  "embedding_model = ''nomic-embed-text''"

text \<open>The body of the \<open>try\<close> in \<open>EmbeddingGenerator.generate_embedding\<close>.\<close>

definition generate_embedding_try :: "embeddings_api \<Rightarrow> string \<Rightarrow> exn + vector" where
  "generate_embedding_try api text =
     (case api embedding_model (slice text 0 8192) of
        Inl e \<Rightarrow> Inl e
      | Inr result \<Rightarrow> Inr (case result of None \<Rightarrow> [] | Some v \<Rightarrow> v))"

definition generate_embedding ::
  "embeddings_api \<Rightarrow> string \<Rightarrow> log_entry list \<times> (exn + vector)" where
  "generate_embedding api text =
     (case generate_embedding_try api text of
        Inr v \<Rightarrow> ([], Inr v)
      | Inl e \<Rightarrow>
          ([Log ERROR ''Failed to generate embedding'' [(''error'', str_exn e)]],
           Inr (replicate 768 0)))"

section \<open>Properties of chunk lists\<close>

text \<open>The number of pieces of \<open>content.split('\n')\<close>: the parsers' \<open>len(lines)\<close>.\<close>

definition split_count :: "string \<Rightarrow> int" where
  "split_count text = int (length (split_nl text))"

text \<open>
  The number of lines of a file: every newline ends a line, and the characters after the
  last newline, when there are any, are one more line. The empty file has no line; a
  file of two lines has two, whether or not a newline ends the second.
\<close>

definition file_line_count :: "string \<Rightarrow> int" where
  "file_line_count text =
     int (count_list text NL) + (if text = [] \<or> last text = NL then 0 else 1)"

text \<open>
  \<open>ordered_within lo hi cs\<close>: the chunks of \<open>cs\<close>, in the order of the list, have
  line ranges that are not empty, each starts after the one before it has ended, the
  first starts after \<open>lo\<close> and the last ends at \<open>hi\<close> or before.
\<close>

fun ordered_within :: "int \<Rightarrow> int \<Rightarrow> chunk list \<Rightarrow> bool" where
  "ordered_within lo hi [] = (lo \<le> hi)"
| "ordered_within lo hi (c # cs) =
     (lo < start_line c \<and> start_line c \<le> end_line c \<and> ordered_within (end_line c) hi cs)"

text \<open>
  The invariant of both scanners once line \<open>b\<close> has been read: the chunks found end at
  \<open>b\<close> or before, and an open chunk starts after them, at \<open>b\<close> or before.
\<close>

definition scan_inv :: "int \<Rightarrow> 'a scan_state_scheme \<Rightarrow> bool" where
  "scan_inv b st =
     (\<exists>hi. ordered_within 0 hi (chunks st) \<and> hi \<le> b \<and>
           (current_chunk st \<noteq> None \<longrightarrow> hi < chunk_start st \<and> chunk_start st \<le> b))"

text \<open>The kinds the parsers assign.\<close>

definition chunk_kinds :: "string set" where
  "chunk_kinds = {''function'', ''class'', ''variable'', ''file'', ''code''}"

definition kinds_inv :: "'a scan_state_scheme \<Rightarrow> bool" where
  "kinds_inv st =
     ((\<forall>c \<in> set (chunks st). type c \<in> chunk_kinds) \<and>
      (\<forall>k. current_chunk st = Some k \<longrightarrow> k \<in> chunk_kinds))"

text \<open>The window of \<open>max_chunk_size\<close> lines that the generic parser takes as chunk \<open>k\<close>.\<close>

definition window :: "string list \<Rightarrow> nat \<Rightarrow> string list" where
  "window lines k = take 100 (drop (100 * k) lines)"

section \<open>Joining and splitting lines\<close>

lemma split_nl_not_Nil: "split_nl s \<noteq> []"
  by (induction s) (auto split: list.splits)

lemma join_nl_Cons_Cons: "join_nl ((c # l) # ls) = c # join_nl (l # ls)"
  by (cases ls) simp_all

lemma join_nl_Nil_Cons: "ls \<noteq> [] \<Longrightarrow> join_nl ([] # ls) = NL # join_nl ls"
  by (cases ls) simp_all

lemma join_split_nl: "join_nl (split_nl s) = s"
proof (induction s)
  case Nil
  show ?case by simp
next
  case (Cons c cs)
  show ?case
  proof (cases "c = NL")
    case True
    with Cons show ?thesis by (simp add: join_nl_Nil_Cons split_nl_not_Nil)
  next
    case False
    obtain l ls where sp: "split_nl cs = l # ls"
      using split_nl_not_Nil [of cs] by (cases "split_nl cs") auto
    with False Cons show ?thesis by (simp add: join_nl_Cons_Cons)
  qed
qed

lemma join_nl_append:
  "xs \<noteq> [] \<Longrightarrow> ys \<noteq> [] \<Longrightarrow> join_nl (xs @ ys) = join_nl xs @ NL # join_nl ys"
proof (induction xs rule: join_nl.induct)
  case 1
  then show ?case by simp
next
  case (2 x)
  then show ?case by (cases ys) simp_all
next
  case (3 x y zs)
  then show ?case by simp
qed

lemma join_nl_concat:
  "\<forall>w \<in> set ws. w \<noteq> [] \<Longrightarrow> join_nl (map join_nl ws) = join_nl (concat ws)"
proof (induction ws)
  case Nil
  show ?case by simp
next
  case (Cons w ws)
  show ?case
  proof (cases ws)
    case Nil
    then show ?thesis by simp
  next
    case (Cons v vs)
    have ne: "concat ws \<noteq> []" using Cons Cons.prems by auto
    have "join_nl (map join_nl (w # ws)) = join_nl w @ NL # join_nl (map join_nl ws)"
      using Cons by simp
    also have "\<dots> = join_nl w @ NL # join_nl (concat ws)"
      using Cons.IH Cons.prems by simp
    also have "\<dots> = join_nl (w @ concat ws)"
      using ne Cons.prems by (simp add: join_nl_append)
    finally show ?thesis by simp
  qed
qed

lemma concat_windows:
  "concat (map (\<lambda>k. take w (drop (w * k) xs)) [0..<m]) = take (w * m) xs"
proof (induction m)
  case 0
  show ?case by simp
next
  case (Suc m)
  have "take (w * m + w) xs = take (w * m) xs @ take w (drop (w * m) xs)"
    by (rule take_add)
  moreover have "w * Suc m = w * m + w" by simp
  ultimately have "take (w * Suc m) xs = take (w * m) xs @ take w (drop (w * m) xs)"
    by (simp only:)
  with Suc show ?case by (simp del: mult_Suc_right)
qed

lemma slice_nonneg:
  assumes "0 \<le> a" and "a \<le> b"
  shows "slice xs a b = take (nat b - nat a) (drop (nat a) xs)"
proof (cases "nat a < length xs")
  case True
  have "min (nat b) (length xs) - nat a = min (nat b - nat a) (length xs - nat a)"
    by arith
  then have "min (nat b) (length xs) - nat a = min (nat b - nat a) (length (drop (nat a) xs))"
    by simp
  then have "take (min (nat b) (length xs) - nat a) (drop (nat a) xs)
               = take (nat b - nat a) (drop (nat a) xs)"
    by (metis take_all_iff take_take order_refl)
  with assms True show ?thesis
    by (simp add: slice_def slice_index_def min_def nat_le_iff nat_less_iff split: if_splits)
next
  case False
  with assms show ?thesis
    by (simp add: slice_def slice_index_def)
qed

section \<open>The generic parser cuts the file into windows\<close>

lemma generic_chunk_window:
  "generic_chunk lines lang (100 * int k) =
     \<lparr>content = join_nl (window lines k),
      start_line = 100 * int k + 1,
      end_line = min (100 * (int k + 1)) (int (length lines)),
      type = ''code'',
      language = lang\<rparr>"
proof -
  have "slice lines (100 * int k) (100 * int k + 100) = take 100 (drop (100 * k) lines)"
    by (simp add: slice_nonneg nat_mult_distrib nat_add_distrib)
  then show ?thesis
    by (simp add: generic_chunk_def max_chunk_size_def window_def algebra_simps)
qed

lemma generic_loop_closed:
  assumes "k \<le> (length lines + 99) div 100"
  shows "generic_loop lines lang (100 * int k) acc =
           acc @ map (\<lambda>j. generic_chunk lines lang (100 * int j)) [k..<(length lines + 99) div 100]"
  using assms
proof (induction "(length lines + 99) div 100 - k" arbitrary: k acc)
  case 0
  then have k: "k = (length lines + 99) div 100" by simp
  then have "\<not> 100 * int k < int (length lines)" by (simp add: k)
  then show ?case using k by (subst generic_loop.simps) simp
next
  case (Suc d)
  then have lt: "k < (length lines + 99) div 100" by simp
  then have run: "100 * int k < int (length lines)" by arith
  have step: "100 * int k + max_chunk_size = 100 * int (Suc k)"
    by (simp add: max_chunk_size_def)
  have "generic_loop lines lang (100 * int k) acc =
          generic_loop lines lang (100 * int (Suc k)) (acc @ [generic_chunk lines lang (100 * int k)])"
    using run by (subst generic_loop.simps) (simp only: step if_True)
  also have "\<dots> = (acc @ [generic_chunk lines lang (100 * int k)]) @
                    map (\<lambda>j. generic_chunk lines lang (100 * int j)) [Suc k..<(length lines + 99) div 100]"
    using Suc.hyps(2) lt by (intro Suc.hyps(1)) simp_all
  also have "\<dots> = acc @ map (\<lambda>j. generic_chunk lines lang (100 * int j)) [k..<(length lines + 99) div 100]"
    using lt by (simp add: upt_conv_Cons)
  finally show ?case .
qed

lemma parse_generic_closed:
  "parse_generic text lang =
     map (\<lambda>j. generic_chunk (split_nl text) lang (100 * int j))
         [0..<(length (split_nl text) + 99) div 100]"
  using generic_loop_closed [of 0 "split_nl text" lang "[]"]
  by (simp add: parse_generic_def)


lemma window_not_Nil:
  assumes "k < (length lines + 99) div 100"
  shows "window lines k \<noteq> []"
proof -
  from assms have "100 * k < length lines" by arith
  then show ?thesis by (simp add: window_def)
qed

lemma concat_all_windows:
  "concat (map (window lines) [0..<(length lines + 99) div 100]) = lines"
proof -
  have "length lines \<le> 100 * ((length lines + 99) div 100)" by arith
  then have "take (100 * ((length lines + 99) div 100)) lines = lines" by simp
  moreover have "window lines = (\<lambda>k. take 100 (drop (100 * k) lines))"
    by (rule ext) (simp add: window_def)
  ultimately show ?thesis by (simp only: concat_windows)
qed

lemma parse_generic_contents:
  "map content (parse_generic text lang) =
     map join_nl (map (window (split_nl text)) [0..<(length (split_nl text) + 99) div 100])"
  by (simp add: parse_generic_closed generic_chunk_window)

lemma parse_generic_join: "join_nl (map content (parse_generic text lang)) = text"
proof -
  let ?lines = "split_nl text"
  let ?ws = "map (window ?lines) [0..<(length ?lines + 99) div 100]"
  have "\<forall>w \<in> set ?ws. w \<noteq> []" by (auto simp: window_not_Nil)
  then have "join_nl (map join_nl ?ws) = join_nl (concat ?ws)" by (rule join_nl_concat)
  then show ?thesis
    by (simp only: parse_generic_contents concat_all_windows join_split_nl)
qed

text \<open>
  The pieces of \<open>content.split('\n')\<close> are the lines of the file, and one more, empty
  piece when the text is empty or ends in a newline.
\<close>

lemma length_split_nl: "length (split_nl t) = Suc (count_list t NL)"
proof (induction t)
  case Nil
  show ?case by simp
next
  case (Cons c cs)
  obtain l ls where sp: "split_nl cs = l # ls"
    using split_nl_not_Nil [of cs] by (cases "split_nl cs") auto
  with Cons show ?case by simp
qed

lemma split_count_lines:
  "split_count t = file_line_count t + (if t = [] \<or> last t = NL then 1 else 0)"
  by (simp add: split_count_def file_line_count_def length_split_nl)

text \<open>
  Claim C7, as stated: chunk \<open>k\<close> of the generic parser spans the lines \<open>100 k + 1\<close> to
  \<open>min (100 (k + 1)) file_line_count\<close>. A Go file of the two lines \<open>a\<close> and \<open>b\<close>, each
  ended by a newline, gives one chunk of lines 1 to 3.
\<close>

theorem generic_window_past_last_line:
  "file_line_count [CHR ''a'', NL, CHR ''b'', NL] = 2
   \<and> parse_generic [CHR ''a'', NL, CHR ''b'', NL] ''go''
       = [\<lparr>content = [CHR ''a'', NL, CHR ''b'', NL], start_line = 1, end_line = 3,
            type = ''code'', language = ''go''\<rparr>]
   \<and> end_line \<lparr>content = [CHR ''a'', NL, CHR ''b'', NL], start_line = 1, end_line = 3,
            type = ''code'', language = ''go''\<rparr>
       \<noteq> min (100 * (0 + 1)) (file_line_count [CHR ''a'', NL, CHR ''b'', NL])"
  by code_simp

text \<open>
  Claim C7, amended. For every text and every language tag, the generic parser cuts the
  pieces of \<open>content.split('\n')\<close> into windows of 100: their number \<open>split_count\<close> is
  the file's line count, plus one when the text is empty or ends in a newline. There are
  as many chunks as windows, chunk \<open>k\<close> (counted from 0) spans the lines \<open>100 k + 1\<close>
  to \<open>min (100 (k + 1)) split_count\<close> and holds the pieces of window \<open>k\<close>, the windows
  put one after the other are all the pieces, and the chunks' contents joined by newlines
  are the text of the file.
\<close>

theorem parse_generic_windows:
  "split_count text = file_line_count text + (if text = [] \<or> last text = NL then 1 else 0) \<and>
   int (length (parse_generic text lang)) = (split_count text + 99) div 100 \<and>
   (\<forall>k < length (parse_generic text lang).
      start_line (parse_generic text lang ! k) = 100 * int k + 1 \<and>
      end_line (parse_generic text lang ! k) = min (100 * (int k + 1)) (split_count text) \<and>
      content (parse_generic text lang ! k) = join_nl (window (split_nl text) k)) \<and>
   concat (map (window (split_nl text)) [0..<length (parse_generic text lang)]) = split_nl text \<and>
   join_nl (map content (parse_generic text lang)) = text"
proof -
  have len: "length (parse_generic text lang) = (length (split_nl text) + 99) div 100"
    by (simp add: parse_generic_closed)
  have ilen: "int (length (parse_generic text lang)) = (split_count text + 99) div 100"
    unfolding len split_count_def by (simp add: zdiv_int)
  have nth: "parse_generic text lang ! k = generic_chunk (split_nl text) lang (100 * int k)"
    if "k < length (parse_generic text lang)" for k
    using that by (simp add: parse_generic_closed)
  have cover: "concat (map (window (split_nl text)) [0..<length (parse_generic text lang)]) = split_nl text"
    by (simp only: len concat_all_windows)
  have rows: "\<forall>k < length (parse_generic text lang).
      start_line (parse_generic text lang ! k) = 100 * int k + 1 \<and>
      end_line (parse_generic text lang ! k) = min (100 * (int k + 1)) (split_count text) \<and>
      content (parse_generic text lang ! k) = join_nl (window (split_nl text) k)"
    using nth by (simp add: generic_chunk_window split_count_def)
  from split_count_lines [of "text"] ilen rows cover parse_generic_join [of "text" lang]
  show ?thesis by blast
qed

theorem parse_generic_windows_witness:
  "file_line_count (replicate 250 NL) = 250 \<and>
   split_count (replicate 250 NL) = 251 \<and>
   length (parse_generic (replicate 250 NL) ''go'') = 3 \<and>
   start_line (parse_generic (replicate 250 NL) ''go'' ! 2) = 201 \<and>
   end_line (parse_generic (replicate 250 NL) ''go'' ! 2) = 251 \<and>
   join_nl (map content (parse_generic (replicate 250 NL) ''go'')) = replicate 250 NL"
proof -
  have n: "split_count (replicate 250 NL) = 251" by code_simp
  have m: "file_line_count (replicate 250 NL) = 250" by code_simp
  have l: "length (parse_generic (replicate 250 NL) ''go'') = 3"
    using parse_generic_windows [of "replicate 250 NL" "''go''"] n by simp
  have "(2::nat) < 3" by simp
  with parse_generic_windows [of "replicate 250 NL" "''go''"] n m l show ?thesis
    by simp
qed

section \<open>Parsing one file never raises\<close>

text \<open>
  Claim C2. For every file, \<open>parse_file\<close> returns a list of chunks and raises nothing:
  when reading the file raises, the file is skipped (the list is empty) and one warning
  is logged; otherwise the chunks are those of the parser for the file's language and
  nothing is logged.
\<close>

theorem parse_file_never_raises:
  "\<exists>cs. snd (parse_file f) = Inr cs \<and>
        (case read_text f of
           Inl e \<Rightarrow> cs = [] \<and>
             fst (parse_file f) =
               [Log WARNING ''Failed to parse file''
                  [(''file'', path_str f), (''error'', str_exn e)]]
         | Inr text \<Rightarrow> cs = parse_content f text \<and> fst (parse_file f) = [])"
  by (simp add: parse_file_def parse_file_try_def split: sum.splits)

section \<open>The point identifier\<close>

text \<open>
  Claim C1. The identifier of a point is a function of the file path, the start line and
  the end line of its chunk: two chunks that agree on these three have the same
  identifier, whatever their content, kind and language are.
\<close>

theorem point_id_of_triple:
  assumes "path_str f = path_str g"
    and "start_line c = start_line d"
    and "end_line c = end_line d"
  shows "point_id h f c = point_id h g d"
  using assms by (simp add: point_id_def)

theorem point_id_of_triple_witness:
  "path_str \<lparr>path_str = ''/app/workspace/a.py'', suffix = ''.py'', read_text = Inr ''x = 1''\<rparr>
     = path_str \<lparr>path_str = ''/app/workspace/a.py'', suffix = ''.py'', read_text = Inr ''y = 2''\<rparr>
   \<and> content \<lparr>content = ''x = 1'', start_line = 1, end_line = 1, type = ''file'', language = ''python''\<rparr>
     \<noteq> content \<lparr>content = ''y = 2'', start_line = 1, end_line = 1, type = ''file'', language = ''python''\<rparr>
   \<and> point_id (\<lambda>s. digits (length s) @ ''c0ffee'')
         \<lparr>path_str = ''/app/workspace/a.py'', suffix = ''.py'', read_text = Inr ''x = 1''\<rparr>
         \<lparr>content = ''x = 1'', start_line = 1, end_line = 1, type = ''file'', language = ''python''\<rparr>
     = point_id (\<lambda>s. digits (length s) @ ''c0ffee'')
         \<lparr>path_str = ''/app/workspace/a.py'', suffix = ''.py'', read_text = Inr ''y = 2''\<rparr>
         \<lparr>content = ''y = 2'', start_line = 1, end_line = 1, type = ''file'', language = ''python''\<rparr>"
  using point_id_of_triple
          [of "\<lparr>path_str = ''/app/workspace/a.py'', suffix = ''.py'', read_text = Inr ''x = 1''\<rparr>"
              "\<lparr>path_str = ''/app/workspace/a.py'', suffix = ''.py'', read_text = Inr ''y = 2''\<rparr>"
              "\<lparr>content = ''x = 1'', start_line = 1, end_line = 1, type = ''file'', language = ''python''\<rparr>"
              "\<lparr>content = ''y = 2'', start_line = 1, end_line = 1, type = ''file'', language = ''python''\<rparr>"
              "\<lambda>s. digits (length s) @ ''c0ffee''"]
  by simp

section \<open>The embedder's fallback\<close>

text \<open>
  Claim C9. For every text, \<open>generate_embedding\<close> raises nothing: when the call of the
  embedding service raises, it returns the vector of 768 zeros; when the service
  replies, it returns the reply's embedding as it is (the empty list when the reply has
  none).
\<close>

theorem generate_embedding_outcome:
  "snd (generate_embedding api text) =
     (case api embedding_model (slice text 0 8192) of
        Inl e \<Rightarrow> Inr (replicate 768 0)
      | Inr None \<Rightarrow> Inr []
      | Inr (Some v) \<Rightarrow> Inr v)"
  by (simp add: generate_embedding_def generate_embedding_try_def split: sum.splits option.splits)

section \<open>Ordered chunk lists and the scanners' invariant\<close>

lemma ordered_within_le: "ordered_within lo hi cs \<Longrightarrow> lo \<le> hi"
proof (induction cs arbitrary: lo)
  case Nil
  then show ?case by simp
next
  case (Cons d ds)
  from Cons.prems have "lo < start_line d" "start_line d \<le> end_line d"
    "ordered_within (end_line d) hi ds" by simp_all
  with Cons.IH [of "end_line d"] show ?case by simp
qed

lemma ordered_within_mono:
  "ordered_within lo hi cs \<Longrightarrow> hi \<le> hi' \<Longrightarrow> ordered_within lo hi' cs"
  by (induction cs arbitrary: lo) auto

lemma ordered_within_snoc:
  "ordered_within lo hi cs \<Longrightarrow> hi < start_line c \<Longrightarrow> start_line c \<le> end_line c
     \<Longrightarrow> ordered_within lo (end_line c) (cs @ [c])"
proof (induction cs arbitrary: lo)
  case Nil
  then show ?case by simp
next
  case (Cons d ds)
  then show ?case by simp
qed

lemma ordered_within_bounds:
  "ordered_within lo hi cs \<Longrightarrow> c \<in> set cs
     \<Longrightarrow> lo < start_line c \<and> start_line c \<le> end_line c \<and> end_line c \<le> hi"
proof (induction cs arbitrary: lo)
  case Nil
  then show ?case by simp
next
  case (Cons d ds)
  from Cons.prems(1) have d: "lo < start_line d" "start_line d \<le> end_line d"
    and rest: "ordered_within (end_line d) hi ds" by simp_all
  show ?case
  proof (cases "c = d")
    case True
    with d ordered_within_le [OF rest] show ?thesis by simp
  next
    case False
    with Cons.prems(2) have "c \<in> set ds" by simp
    from Cons.IH [OF rest this] d show ?thesis by simp
  qed
qed

lemma ordered_within_disjoint:
  "ordered_within lo hi cs \<Longrightarrow> sorted_wrt (\<lambda>c d. end_line c < start_line d) cs"
proof (induction cs arbitrary: lo)
  case Nil
  show ?case by simp
next
  case (Cons d ds)
  from Cons.prems have rest: "ordered_within (end_line d) hi ds" by simp
  have "\<forall>c \<in> set ds. end_line d < start_line c"
    using ordered_within_bounds [OF rest] by blast
  with Cons.IH [OF rest] show ?case by simp
qed

lemma ordered_within_sorted:
  assumes "ordered_within lo hi cs"
  shows "sorted (map start_line cs)"
proof -
  have "sorted_wrt (\<lambda>c d. start_line c \<le> start_line d) cs"
  proof (rule sorted_wrt_mono_rel [OF _ ordered_within_disjoint [OF assms]])
    fix c d :: chunk
    assume "c \<in> set cs" and "end_line c < start_line d"
    with ordered_within_bounds [OF assms, of c] show "start_line c \<le> start_line d" by simp
  qed
  then show ?thesis by (simp add: sorted_map)
qed

lemma scan_inv_keep:
  assumes "scan_inv b st" and "b \<le> b'"
    and "chunks st' = chunks st" and "current_chunk st' = current_chunk st"
    and "chunk_start st' = chunk_start st"
  shows "scan_inv b' st'"
proof -
  from assms(1) obtain hi where hi: "ordered_within 0 hi (chunks st)" "hi \<le> b"
    "current_chunk st \<noteq> None \<longrightarrow> hi < chunk_start st \<and> chunk_start st \<le> b"
    unfolding scan_inv_def by blast
  with assms(2-5) show ?thesis unfolding scan_inv_def
    by (intro exI [of _ hi]) auto
qed

lemma scan_inv_open:
  assumes "scan_inv b st" and "b < i" and "current_chunk st = None"
    and "chunks st' = chunks st" and "chunk_start st' = i"
  shows "scan_inv i st'"
proof -
  from assms(1) obtain hi where hi: "ordered_within 0 hi (chunks st)" "hi \<le> b"
    unfolding scan_inv_def by blast
  with assms(2-5) show ?thesis unfolding scan_inv_def
    by (intro exI [of _ hi]) auto
qed

lemma scan_inv_close:
  assumes "scan_inv b st" and "b \<le> e" and "current_chunk st = Some k"
    and "chunks st' = chunks st @ [c]" and "start_line c = chunk_start st"
    and "end_line c = e" and "current_chunk st' = None"
  shows "scan_inv e st'"
proof -
  from assms(1,3) obtain hi where hi: "ordered_within 0 hi (chunks st)" "hi \<le> b"
    "hi < chunk_start st" "chunk_start st \<le> b"
    unfolding scan_inv_def by auto
  have "ordered_within 0 (end_line c) (chunks st @ [c])"
    using hi assms(2,5,6) by (intro ordered_within_snoc [OF hi(1)]) simp_all
  with assms(4,6,7) show ?thesis unfolding scan_inv_def
    by (intro exI [of _ e]) simp
qed

lemma scan_inv_reopen:
  assumes "scan_inv (i - 1) st" and "current_chunk st = Some k"
    and "chunks st' = chunks st @ [c]" and "start_line c = chunk_start st"
    and "end_line c = i - 1" and "chunk_start st' = i"
  shows "scan_inv i st'"
proof -
  from assms(1,2) obtain hi where hi: "ordered_within 0 hi (chunks st)" "hi \<le> i - 1"
    "hi < chunk_start st" "chunk_start st \<le> i - 1"
    unfolding scan_inv_def by auto
  have "ordered_within 0 (end_line c) (chunks st @ [c])"
    using hi assms(4,5) by (intro ordered_within_snoc [OF hi(1)]) simp_all
  with assms(3,5,6) show ?thesis unfolding scan_inv_def
    by (intro exI [of _ "i - 1"]) simp
qed

section \<open>The Python scanner keeps the invariant\<close>

lemma python_step_cases:
  obtains (skip) "python_step lines st i line = st"
  | (opened) k' where "current_chunk st = None"
      "chunks (python_step lines st i line) = chunks st"
      "current_chunk (python_step lines st i line) = Some k'"
      "chunk_start (python_step lines st i line) = i" "k' \<in> chunk_kinds"
  | (reopened) k k' c where "current_chunk st = Some k"
      "chunks (python_step lines st i line) = chunks st @ [c]"
      "start_line c = chunk_start st" "end_line c = i - 1" "type c = k"
      "current_chunk (python_step lines st i line) = Some k'"
      "chunk_start (python_step lines st i line) = i" "k' \<in> chunk_kinds"
  | (closed) k c where "current_chunk st = Some k"
      "chunks (python_step lines st i line) = chunks st @ [c]"
      "start_line c = chunk_start st" "end_line c = i" "type c = k"
      "current_chunk (python_step lines st i line) = None"
proof (cases "lstrip line = [] \<or> startswith (lstrip line) ''#''")
  case True
  then have "python_step lines st i line = st" by (simp add: python_step_def)
  then show ?thesis by (rule skip)
next
  case nonblank: False
  show ?thesis
  proof (cases "is_definition (lstrip line)")
    case True
    show ?thesis
    proof (cases "current_chunk st")
      case None
      with nonblank True show ?thesis
        by (intro opened [where k' = "if contains (lstrip line) ''def'' then ''function'' else ''class''"];
            simp add: python_step_def Let_def chunk_kinds_def)
    next
      case (Some k)
      with nonblank True show ?thesis
        by (intro reopened [where k = k and k' = "if contains (lstrip line) ''def'' then ''function'' else ''class''" and c = "\<lparr>content = join_nl (slice lines (chunk_start st - 1) (i - 1)),
               start_line = chunk_start st, end_line = i - 1, type = k, language = ''python''\<rparr>"];
            simp add: python_step_def Let_def chunk_kinds_def)
    qed
  next
    case nodef: False
    show ?thesis
    proof (cases "current_chunk st")
      case None
      with nonblank nodef have "python_step lines st i line = st"
        by (simp add: python_step_def Let_def)
      then show ?thesis by (rule skip)
    next
      case (Some k)
      show ?thesis
      proof (cases "int (length line) - int (length (lstrip line)) \<le> current_indent st")
        case True
        with nonblank nodef Some show ?thesis
          by (intro closed [where k = k and c = "\<lparr>content = join_nl (slice lines (chunk_start st - 1) i),
               start_line = chunk_start st, end_line = i, type = k, language = ''python''\<rparr>"];
            simp add: python_step_def Let_def)
      next
        case False
        with nonblank nodef have "python_step lines st i line = st"
          by (simp add: python_step_def Let_def)
        then show ?thesis by (rule skip)
      qed
    qed
  qed
qed


lemma python_step_inv:
  assumes "scan_inv (i - 1) st"
  shows "scan_inv i (python_step lines st i line)"
proof (cases rule: python_step_cases [of lines st i line])
  case skip
  from scan_inv_keep [OF assms, of i st] show ?thesis by (simp add: skip)
next
  case (opened k')
  show ?thesis
    by (rule scan_inv_open [OF assms _ opened(1) opened(2) opened(4)]) simp
next
  case (reopened k k' c)
  show ?thesis
    by (rule scan_inv_reopen [OF assms reopened(1-4) reopened(7)])
next
  case (closed k c)
  show ?thesis
    by (rule scan_inv_close [OF assms _ closed(1-4) closed(6)]) simp
qed

lemma python_loop_inv:
  "scan_inv (i - 1) st \<Longrightarrow> scan_inv (i - 1 + int (length rest)) (python_loop lines i rest st)"
proof (induction rest arbitrary: i st)
  case Nil
  then show ?case by simp
next
  case (Cons line rest)
  from Cons.prems have "scan_inv (i + 1 - 1) (python_step lines st i line)"
    by (simp add: python_step_inv)
  from Cons.IH [OF this] show ?case by (simp add: algebra_simps)
qed


lemma python_step_kinds:
  assumes "kinds_inv st"
  shows "kinds_inv (python_step lines st i line)"
proof (cases rule: python_step_cases [of lines st i line])
  case skip
  with assms show ?thesis by simp
next
  case (opened k')
  with assms show ?thesis by (simp add: kinds_inv_def)
next
  case (reopened k k' c)
  with assms show ?thesis by (simp add: kinds_inv_def)
next
  case (closed k c)
  with assms show ?thesis by (simp add: kinds_inv_def)
qed

lemma python_loop_kinds:
  "kinds_inv st \<Longrightarrow> kinds_inv (python_loop lines i rest st)"
  by (induction rest arbitrary: i st) (simp_all add: python_step_kinds)

text \<open>What both scanners do after the loop: close the open chunk, or take the whole file.\<close>

lemma finish_ordered:
  assumes inv: "scan_inv n st" and n: "1 \<le> n"
    and found: "found = (case current_chunk st of None \<Rightarrow> chunks st
                          | Some k \<Rightarrow> chunks st @ [c k])"
    and c: "\<And>k. start_line (c k) = chunk_start st \<and> end_line (c k) = n"
    and whole: "start_line w = 1 \<and> end_line w = n"
  shows "ordered_within 0 n (if found = [] then [w] else found)"
proof (cases "found = []")
  case True
  with n whole show ?thesis by simp
next
  case False
  have "ordered_within 0 n found"
  proof (cases "current_chunk st")
    case None
    from inv obtain hi where "ordered_within 0 hi (chunks st)" "hi \<le> n"
      unfolding scan_inv_def by blast
    then have "ordered_within 0 n (chunks st)" by (rule ordered_within_mono)
    with None found show ?thesis by simp
  next
    case (Some k)
    from inv Some obtain hi where hi: "ordered_within 0 hi (chunks st)"
      "hi < chunk_start st" "chunk_start st \<le> n"
      unfolding scan_inv_def by auto
    have "ordered_within 0 (end_line (c k)) (chunks st @ [c k])"
      using hi c [of k] by (intro ordered_within_snoc [OF hi(1)]) simp_all
    with Some found c [of k] show ?thesis by simp
  qed
  with False show ?thesis by simp
qed

lemma scan_inv_init:
  "chunks st = [] \<Longrightarrow> current_chunk st = None \<Longrightarrow> scan_inv 0 st"
  unfolding scan_inv_def by (intro exI [of _ 0]) simp

lemma parse_python_ordered: "ordered_within 0 (split_count text) (parse_python text)"
proof -
  let ?lines = "split_nl text"
  let ?init = "\<lparr>chunks = [], current_chunk = None, chunk_start = 0, current_indent = 0\<rparr>"
  let ?st = "python_loop ?lines 1 ?lines ?init"
  have "scan_inv (1 - 1) ?init" by (simp add: scan_inv_init)
  from python_loop_inv [OF this, of "?lines" "?lines"]
  have inv: "scan_inv (split_count text) ?st" by (simp add: split_count_def)
  have n: "1 \<le> split_count text"
    using split_nl_not_Nil [of "text"] by (cases "split_nl text") (simp_all add: split_count_def)
  show ?thesis
    unfolding parse_python_def Let_def
    by (rule finish_ordered [OF inv n refl]) (simp_all add: split_count_def)
qed

lemma parse_python_kinds: "c \<in> set (parse_python text) \<Longrightarrow> type c \<in> chunk_kinds"
proof -
  let ?lines = "split_nl text"
  let ?init = "\<lparr>chunks = [], current_chunk = None, chunk_start = 0, current_indent = 0\<rparr>"
  let ?st = "python_loop ?lines 1 ?lines ?init"
  assume c: "c \<in> set (parse_python text)"
  have "kinds_inv ?init" by (simp add: kinds_inv_def)
  then have "kinds_inv ?st" by (rule python_loop_kinds)
  then have k: "\<forall>c \<in> set (chunks ?st). type c \<in> chunk_kinds"
    "\<forall>k. current_chunk ?st = Some k \<longrightarrow> k \<in> chunk_kinds"
    by (simp_all add: kinds_inv_def)
  from c k show ?thesis
    unfolding parse_python_def Let_def
    by (auto simp: chunk_kinds_def split: option.splits if_splits)
qed

section \<open>The JavaScript scanner, the generic parser and the dispatch\<close>

lemma javascript_step_inv:
  assumes "scan_inv (i - 1) st" and "kinds_inv st"
  shows "scan_inv i (javascript_step lines lang st i line) \<and>
         kinds_inv (javascript_step lines lang st i line)"
proof -
  define k' where "k' = (if contains (strip line) ''function'' then ''function''
                          else if contains (strip line) ''class'' then ''class''
                          else ''variable'')"
  define st1 where "st1 =
    (if list_ex (contains (strip line)) js_keywords then
       st\<lparr>chunks :=
            (case current_chunk st of
               None \<Rightarrow> chunks st
             | Some k \<Rightarrow> chunks st @
                 [\<lparr>content = join_nl (slice lines (chunk_start st - 1) (i - 1)),
                   start_line = chunk_start st,
                   end_line = i - 1,
                   type = k,
                   language = lang\<rparr>]),
          current_chunk := Some k',
          chunk_start := i,
          brace_count := count_char (strip line) (CHR ''{'') - count_char (strip line) (CHR ''}'')\<rparr>
     else st)"
  define st2 where "st2 =
    st1\<lparr>brace_count := brace_count st1 + (count_char line (CHR ''{'') - count_char line (CHR ''}''))\<rparr>"
  have step: "javascript_step lines lang st i line =
    (if current_chunk st2 \<noteq> None \<and> brace_count st2 = 0 \<and> CHR ''{'' \<in> set line then
       st2\<lparr>chunks :=
             (case current_chunk st2 of
                None \<Rightarrow> chunks st2
              | Some k \<Rightarrow> chunks st2 @
                  [\<lparr>content = join_nl (slice lines (chunk_start st2 - 1) i),
                    start_line = chunk_start st2,
                    end_line = i,
                    type = k,
                    language = lang\<rparr>]),
           current_chunk := None\<rparr>
     else st2)"
    unfolding javascript_step_def Let_def st2_def st1_def k'_def by (rule refl)
  have k': "k' \<in> chunk_kinds" by (simp add: k'_def chunk_kinds_def)
  have inv1: "scan_inv i st1"
  proof (cases "list_ex (contains (strip line)) js_keywords")
    case False
    then have "st1 = st" by (simp add: st1_def)
    with scan_inv_keep [OF assms(1), of i st] show ?thesis by simp
  next
    case True
    show ?thesis
    proof (cases "current_chunk st")
      case None
      show ?thesis
        by (rule scan_inv_open [OF assms(1) _ None]) (simp_all add: st1_def True None)
    next
      case (Some k)
      show ?thesis
        by (rule scan_inv_reopen [OF assms(1) Some,
              where c = "\<lparr>content = join_nl (slice lines (chunk_start st - 1) (i - 1)),
                         start_line = chunk_start st, end_line = i - 1, type = k,
                         language = lang\<rparr>"])
           (simp_all add: st1_def True Some)
    qed
  qed
  have kinds1: "kinds_inv st1"
    using assms(2) k' by (auto simp: st1_def kinds_inv_def split: option.splits)
  have inv2: "scan_inv i st2"
    by (rule scan_inv_keep [OF inv1]) (simp_all add: st2_def)
  have kinds2: "kinds_inv st2"
    using kinds1 by (simp add: st2_def kinds_inv_def)
  show ?thesis
  proof (cases "current_chunk st2 \<noteq> None \<and> brace_count st2 = 0 \<and> CHR ''{'' \<in> set line")
    case False
    then have "javascript_step lines lang st i line = st2" by (simp only: step if_False)
    with inv2 kinds2 show ?thesis by simp
  next
    case True
    then obtain k where k: "current_chunk st2 = Some k" by auto
    let ?c = "\<lparr>content = join_nl (slice lines (chunk_start st2 - 1) i),
               start_line = chunk_start st2, end_line = i, type = k, language = lang\<rparr>"
    have eq: "javascript_step lines lang st i line =
                st2\<lparr>chunks := chunks st2 @ [?c], current_chunk := None\<rparr>"
      using True k by (simp add: step)
    have "scan_inv i (st2\<lparr>chunks := chunks st2 @ [?c], current_chunk := None\<rparr>)"
      by (rule scan_inv_close [OF inv2 _ k, where c = ?c]) simp_all
    moreover have "kinds_inv (st2\<lparr>chunks := chunks st2 @ [?c], current_chunk := None\<rparr>)"
      using kinds2 k by (simp add: kinds_inv_def)
    ultimately show ?thesis by (simp only: eq)
  qed
qed

lemma javascript_loop_inv:
  "scan_inv (i - 1) st \<Longrightarrow> kinds_inv st \<Longrightarrow>
     scan_inv (i - 1 + int (length rest)) (javascript_loop lines lang i rest st) \<and>
     kinds_inv (javascript_loop lines lang i rest st)"
proof (induction rest arbitrary: i st)
  case Nil
  then show ?case by simp
next
  case (Cons line rest)
  from javascript_step_inv [OF Cons.prems, of lines lang line]
  have "scan_inv (i + 1 - 1) (javascript_step lines lang st i line)"
    and "kinds_inv (javascript_step lines lang st i line)" by simp_all
  from Cons.IH [OF this] show ?case by (simp add: algebra_simps)
qed


lemma parse_javascript_ordered:
  "ordered_within 0 (split_count text) (parse_javascript text lang)"
proof -
  let ?lines = "split_nl text"
  let ?init = "\<lparr>chunks = [], current_chunk = None, chunk_start = 0, brace_count = 0\<rparr>"
  let ?st = "javascript_loop ?lines lang 1 ?lines ?init"
  have "scan_inv (1 - 1) ?init" by (simp add: scan_inv_init)
  moreover have "kinds_inv ?init" by (simp add: kinds_inv_def)
  ultimately have "scan_inv (1 - 1 + int (length ?lines)) ?st"
    using javascript_loop_inv [of 1 ?init "?lines" "?lines" lang] by blast
  then have inv: "scan_inv (split_count text) ?st" by (simp add: split_count_def)
  have n: "1 \<le> split_count text"
    using split_nl_not_Nil [of "text"] by (cases "split_nl text") (simp_all add: split_count_def)
  show ?thesis
    unfolding parse_javascript_def Let_def
    by (rule finish_ordered [OF inv n refl]) (simp_all add: split_count_def)
qed

lemma parse_javascript_kinds:
  assumes "c \<in> set (parse_javascript text lang)"
  shows "type c \<in> chunk_kinds"
proof -
  let ?lines = "split_nl text"
  let ?init = "\<lparr>chunks = [], current_chunk = None, chunk_start = 0, brace_count = 0\<rparr>"
  let ?st = "javascript_loop ?lines lang 1 ?lines ?init"
  have "scan_inv (1 - 1) ?init" by (simp add: scan_inv_init)
  moreover have "kinds_inv ?init" by (simp add: kinds_inv_def)
  ultimately have "kinds_inv ?st"
    using javascript_loop_inv [of 1 ?init "?lines" "?lines" lang] by blast
  then have k: "\<forall>c \<in> set (chunks ?st). type c \<in> chunk_kinds"
    "\<forall>k. current_chunk ?st = Some k \<longrightarrow> k \<in> chunk_kinds"
    by (simp_all add: kinds_inv_def)
  from assms k show ?thesis
    unfolding parse_javascript_def Let_def
    by (auto simp: chunk_kinds_def split: option.splits if_splits)
qed

lemma generic_prefix_ordered:
  assumes "k \<le> (length lines + 99) div 100"
  shows "ordered_within 0 (min (100 * int k) (int (length lines)))
           (map (\<lambda>j. generic_chunk lines lang (100 * int j)) [0..<k])"
  using assms
proof (induction k)
  case 0
  show ?case by simp
next
  case (Suc k)
  let ?c = "generic_chunk lines lang (100 * int k)"
  from Suc.prems have lt: "100 * int k < int (length lines)" by arith
  from Suc have prev: "ordered_within 0 (min (100 * int k) (int (length lines)))
           (map (\<lambda>j. generic_chunk lines lang (100 * int j)) [0..<k])" by simp
  have "ordered_within 0 (end_line ?c)
          (map (\<lambda>j. generic_chunk lines lang (100 * int j)) [0..<k] @ [?c])"
    using lt by (intro ordered_within_snoc [OF prev]) (simp_all add: generic_chunk_window)
  moreover have "end_line ?c = min (100 * int (Suc k)) (int (length lines))"
    by (simp add: generic_chunk_window)
  ultimately show ?case by simp
qed

lemma parse_generic_ordered:
  "ordered_within 0 (split_count text) (parse_generic text lang)"
proof -
  let ?n = "length (split_nl text)"
  have "int ?n \<le> 100 * int ((?n + 99) div 100)" by arith
  then have "min (100 * int ((?n + 99) div 100)) (int ?n) = int ?n" by simp
  with generic_prefix_ordered [of "(?n + 99) div 100" "split_nl text" lang]
  show ?thesis by (simp add: parse_generic_closed split_count_def)
qed

lemma parse_generic_kinds: "c \<in> set (parse_generic text lang) \<Longrightarrow> type c = ''code''"
  by (auto simp: parse_generic_closed generic_chunk_window)

lemma parse_content_ordered:
  "ordered_within 0 (split_count text) (parse_content f text)"
  by (simp add: parse_content_def Let_def parse_java_def parse_go_def parse_rust_def
        parse_python_ordered parse_javascript_ordered parse_generic_ordered)

lemma parse_content_kinds:
  assumes "c \<in> set (parse_content f text)"
  shows "type c \<in> chunk_kinds"
proof -
  have "type c \<in> chunk_kinds \<or> type c = ''code''"
    using assms parse_python_kinds [of c "text"] 
      parse_javascript_kinds [of c "text" "detect_language f"]
      parse_generic_kinds [of c "text"]
    by (auto simp: parse_content_def Let_def parse_java_def parse_go_def parse_rust_def
             split: if_splits)
  then show ?thesis by (auto simp: chunk_kinds_def)
qed

lemma parse_file_chunks:
  assumes "snd (parse_file f) = Inr cs"
  shows "cs = (case read_text f of Inl e \<Rightarrow> [] | Inr t \<Rightarrow> parse_content f t)"
  using assms by (simp add: parse_file_def parse_file_try_def split: sum.splits)

section \<open>Line ranges of the chunks of a file\<close>

text \<open>
  Claim C3. The chunks \<open>parse_file\<close> returns for a file are line-range-disjoint: in the
  order returned they are sorted by start line, every chunk ends before the next one
  starts, so that no two line ranges overlap, and no line range is empty. This holds for
  every file, with or without a top-level definition.
\<close>

theorem chunks_line_disjoint:
  assumes "snd (parse_file f) = Inr cs"
  shows "sorted (map start_line cs) \<and>
         sorted_wrt (\<lambda>c d. end_line c < start_line d) cs \<and>
         (\<forall>c \<in> set cs. start_line c \<le> end_line c)"
proof (cases "read_text f")
  case (Inl e)
  with parse_file_chunks [OF assms] show ?thesis by simp
next
  case (Inr t)
  with parse_file_chunks [OF assms] have cs: "cs = parse_content f t" by simp
  have ord: "ordered_within 0 (split_count t) cs"
    unfolding cs by (rule parse_content_ordered)
  from ordered_within_sorted [OF ord] ordered_within_disjoint [OF ord]
    ordered_within_bounds [OF ord]
  show ?thesis by blast
qed

theorem chunks_line_disjoint_witness:
  "snd (parse_file \<lparr>path_str = ''/app/workspace/lib.py'', suffix = ''.py'',
          read_text = Inr (join_nl [''def f():'', ''    return 1'', ''def g():'', ''    return 2''])\<rparr>)
     = Inr [\<lparr>content = join_nl [''def f():'', ''    return 1''], start_line = 1, end_line = 2,
              type = ''function'', language = ''python''\<rparr>,
            \<lparr>content = join_nl [''def g():'', ''    return 2''], start_line = 3, end_line = 4,
              type = ''function'', language = ''python''\<rparr>]
   \<and> sorted (map start_line
        [\<lparr>content = join_nl [''def f():'', ''    return 1''], start_line = 1, end_line = 2,
              type = ''function'', language = ''python''\<rparr>,
            \<lparr>content = join_nl [''def g():'', ''    return 2''], start_line = 3, end_line = 4,
              type = ''function'', language = ''python''\<rparr>])
   \<and> sorted_wrt (\<lambda>c d. end_line c < start_line d)
        [\<lparr>content = join_nl [''def f():'', ''    return 1''], start_line = 1, end_line = 2,
              type = ''function'', language = ''python''\<rparr>,
            \<lparr>content = join_nl [''def g():'', ''    return 2''], start_line = 3, end_line = 4,
              type = ''function'', language = ''python''\<rparr>]"
proof -
  have h: "snd (parse_file \<lparr>path_str = ''/app/workspace/lib.py'', suffix = ''.py'',
          read_text = Inr (join_nl [''def f():'', ''    return 1'', ''def g():'', ''    return 2''])\<rparr>)
     = Inr [\<lparr>content = join_nl [''def f():'', ''    return 1''], start_line = 1, end_line = 2,
              type = ''function'', language = ''python''\<rparr>,
            \<lparr>content = join_nl [''def g():'', ''    return 2''], start_line = 3, end_line = 4,
              type = ''function'', language = ''python''\<rparr>]"
    by code_simp
  from chunks_line_disjoint [OF h] h show ?thesis by blast
qed

text \<open>
  Claim C5, as stated: every chunk of a file of \<open>N\<close> lines has
  \<open>1 \<le> start_line \<le> end_line \<le> N\<close>. A Python file of the two lines \<open>def f():\<close> and
  \<open>pass\<close>, each ended by a newline, gives a function chunk of lines 1 to 3.
\<close>

theorem python_chunk_past_last_line:
  "file_line_count (''def f():'' @ NL # ''    pass'' @ [NL]) = 2
   \<and> snd (parse_file \<lparr>path_str = ''/app/workspace/f.py'', suffix = ''.py'',
                       read_text = Inr (''def f():'' @ NL # ''    pass'' @ [NL])\<rparr>)
       = Inr [\<lparr>content = ''def f():'' @ NL # ''    pass'' @ [NL], start_line = 1, end_line = 3,
                type = ''function'', language = ''python''\<rparr>]
   \<and> \<not> end_line \<lparr>content = ''def f():'' @ NL # ''    pass'' @ [NL], start_line = 1,
                    end_line = 3, type = ''function'', language = ''python''\<rparr>
         \<le> file_line_count (''def f():'' @ NL # ''    pass'' @ [NL])"
  by code_simp

text \<open>
  Claim C5, amended. Every chunk \<open>parse_file\<close> returns for a file of \<open>N\<close> lines that
  could be read has \<open>1 \<le> start_line \<le> end_line\<close>, and \<open>end_line \<le> N\<close> when the text
  is not empty and does not end in a newline, \<open>end_line \<le> N + 1\<close> when it is empty or
  ends in a newline.
\<close>

theorem chunk_lines_within_file:
  assumes "read_text f = Inr t"
    and "snd (parse_file f) = Inr cs"
    and "c \<in> set cs"
  shows "1 \<le> start_line c \<and> start_line c \<le> end_line c \<and>
         end_line c \<le> file_line_count t + (if t = [] \<or> last t = NL then 1 else 0)"
proof -
  from parse_file_chunks [OF assms(2)] assms(1) have cs: "cs = parse_content f t" by simp
  have ord: "ordered_within 0 (split_count t) cs"
    unfolding cs by (rule parse_content_ordered)
  from ordered_within_bounds [OF ord assms(3)] split_count_lines [of t]
  show ?thesis by simp
qed

theorem chunk_lines_within_file_witness:
  "file_line_count (join_nl [''function f() {'', ''  return 1;'', ''}'', ''const x = 1;'']) = 4
   \<and> 1 \<le> start_line \<lparr>content = ''const x = 1;'', start_line = 4, end_line = 4,
                type = ''variable'', language = ''javascript''\<rparr>
   \<and> start_line \<lparr>content = ''const x = 1;'', start_line = 4, end_line = 4,
                type = ''variable'', language = ''javascript''\<rparr>
       \<le> end_line \<lparr>content = ''const x = 1;'', start_line = 4, end_line = 4,
                type = ''variable'', language = ''javascript''\<rparr>
   \<and> end_line \<lparr>content = ''const x = 1;'', start_line = 4, end_line = 4,
                type = ''variable'', language = ''javascript''\<rparr>
       \<le> file_line_count (join_nl [''function f() {'', ''  return 1;'', ''}'', ''const x = 1;''])"
proof -
  let ?t = "join_nl [''function f() {'', ''  return 1;'', ''}'', ''const x = 1;'']"
  let ?f = "\<lparr>path_str = ''/app/workspace/a.js'', suffix = ''.js'', read_text = Inr ?t\<rparr>"
  let ?c1 = "\<lparr>content = join_nl [''function f() {'', ''  return 1;'', ''}''], start_line = 1,
              end_line = 3, type = ''function'', language = ''javascript''\<rparr>"
  let ?c2 = "\<lparr>content = ''const x = 1;'', start_line = 4, end_line = 4,
                type = ''variable'', language = ''javascript''\<rparr>"
  have r: "read_text ?f = Inr ?t" by simp
  have p: "snd (parse_file ?f) = Inr [?c1, ?c2]" by code_simp
  have m: "?c2 \<in> set [?c1, ?c2]" by simp
  have n: "file_line_count ?t = 4" by code_simp
  have e: "\<not> (?t = [] \<or> last ?t = NL)" by code_simp
  from chunk_lines_within_file [OF r p m] n e show ?thesis by simp
qed

section \<open>The kinds of chunks\<close>

text \<open>
  Claim C6, as stated: every chunk has a kind among \<open>function\<close>, \<open>class\<close>,
  \<open>variable\<close>, \<open>file\<close> and \<open>code-block\<close>. The generic parser labels its chunks
  \<open>code\<close>: a one-line Go file gives a chunk whose kind is none of the five.
\<close>

theorem generic_kind_is_code:
  "snd (parse_file \<lparr>path_str = ''/app/workspace/main.go'', suffix = ''.go'',
                     read_text = Inr ''package main''\<rparr>)
     = Inr [\<lparr>content = ''package main'', start_line = 1, end_line = 1,
              type = ''code'', language = ''go''\<rparr>]
   \<and> type \<lparr>content = ''package main'', start_line = 1, end_line = 1,
              type = ''code'', language = ''go''\<rparr>
       \<notin> {''function'', ''class'', ''variable'', ''file'', ''code-block''}"
  by code_simp

text \<open>
  Claim C6, amended: every chunk \<open>parse_file\<close> returns, for every file of any language,
  has a kind among \<open>function\<close>, \<open>class\<close>, \<open>variable\<close>, \<open>file\<close> and \<open>code\<close>.
\<close>

theorem chunk_kind_in_kinds:
  assumes "snd (parse_file f) = Inr cs"
    and "c \<in> set cs"
  shows "type c \<in> {''function'', ''class'', ''variable'', ''file'', ''code''}"
proof (cases "read_text f")
  case (Inl e)
  with parse_file_chunks [OF assms(1)] assms(2) show ?thesis by simp
next
  case (Inr t)
  with parse_file_chunks [OF assms(1)] assms(2) have "c \<in> set (parse_content f t)" by simp
  then have "type c \<in> chunk_kinds" by (rule parse_content_kinds)
  then show ?thesis by (simp add: chunk_kinds_def)
qed

theorem chunk_kind_in_kinds_witness:
  "type \<lparr>content = ''class A {}'', start_line = 1, end_line = 1,
          type = ''class'', language = ''typescript''\<rparr>
     \<in> {''function'', ''class'', ''variable'', ''file'', ''code''}"
proof -
  let ?f = "\<lparr>path_str = ''/app/workspace/a.ts'', suffix = ''.ts'', read_text = Inr ''class A {}''\<rparr>"
  let ?c = "\<lparr>content = ''class A {}'', start_line = 1, end_line = 1,
          type = ''class'', language = ''typescript''\<rparr>"
  have p: "snd (parse_file ?f) = Inr [?c]" by code_simp
  have m: "?c \<in> set [?c]" by simp
  from chunk_kind_in_kinds [OF p m] show ?thesis .
qed

section \<open>The empty file\<close>

lemma parse_python_empty:
  "parse_python [] =
     [\<lparr>content = [], start_line = 1, end_line = 1, type = ''file'', language = ''python''\<rparr>]"
  by (simp add: parse_python_def python_step_def lstrip_def)

lemma parse_javascript_empty:
  "parse_javascript [] lang =
     [\<lparr>content = [], start_line = 1, end_line = 1, type = ''file'', language = lang\<rparr>]"
  by (simp add: parse_javascript_def javascript_step_def strip_def lstrip_def rstrip_def
        js_keywords_def count_char_def)

lemma parse_generic_empty:
  "parse_generic [] lang =
     [\<lparr>content = [], start_line = 1, end_line = 1, type = ''code'', language = lang\<rparr>]"
proof -
  have "parse_generic [] lang = [generic_chunk [[]] lang 0]"
    by (simp add: parse_generic_def generic_loop.simps [of _ _ 0]
          generic_loop.simps [of _ _ 100] max_chunk_size_def)
  then show ?thesis
    by (simp add: generic_chunk_def slice_def slice_index_def max_chunk_size_def)
qed

text \<open>
  Claim C8, as stated: an empty file gives exactly one chunk of kind \<open>file\<close> in every
  language family. For a language of the generic family the one chunk has kind
  \<open>code\<close>.
\<close>

theorem empty_generic_file_is_code:
  "snd (parse_file \<lparr>path_str = ''/app/workspace/empty.go'', suffix = ''.go'', read_text = Inr []\<rparr>)
     = Inr [\<lparr>content = [], start_line = 1, end_line = 1, type = ''code'', language = ''go''\<rparr>]
   \<and> type \<lparr>content = [], start_line = 1, end_line = 1, type = ''code'', language = ''go''\<rparr>
       \<noteq> ''file''"
  by code_simp

text \<open>
  Claim C8, amended: an empty file gives exactly one chunk, with empty content and the
  line range 1 to 1; its kind is \<open>file\<close> when the language is Python, JavaScript or
  TypeScript and \<open>code\<close> for every other language.
\<close>

theorem empty_file_one_chunk:
  assumes "read_text f = Inr []"
  shows "snd (parse_file f) =
           Inr [\<lparr>content = [], start_line = 1, end_line = 1,
                 type = (if detect_language f \<in> {''python'', ''javascript'', ''typescript''}
                         then ''file'' else ''code''),
                 language = detect_language f\<rparr>]"
  using assms
  by (simp add: parse_file_def parse_file_try_def parse_content_def Let_def
        parse_java_def parse_go_def parse_rust_def
        parse_python_empty parse_javascript_empty parse_generic_empty)

theorem empty_file_one_chunk_witness:
  "snd (parse_file \<lparr>path_str = ''/app/workspace/empty.py'', suffix = ''.py'', read_text = Inr []\<rparr>)
     = Inr [\<lparr>content = [], start_line = 1, end_line = 1, type = ''file'', language = ''python''\<rparr>]"
proof -
  let ?f = "\<lparr>path_str = ''/app/workspace/empty.py'', suffix = ''.py'', read_text = Inr []\<rparr>"
  have r: "read_text ?f = Inr []" by simp
  have l: "detect_language ?f = ''python''" by code_simp
  from empty_file_one_chunk [OF r] l show ?thesis by simp
qed

section \<open>The five-line scenario\<close>

text \<open>
  Claim C4. The scenario: \<open>def foo():\<close> on line 1, its body on lines 2 to 4, a new
  top-level statement on line 5. The claim expects a function chunk of lines 1 to 4. The
  dedent branch of the Python scanner closes the chunk at the dedenting line itself
  (\<open>end_line = i\<close>), where the definition branch closes it at the line before
  (\<open>end_line = i - 1\<close>): the parser returns one function chunk of lines 1 to 5, whose
  content holds the top-level statement.
\<close>

theorem five_line_function_chunk:
  "snd (parse_file
          \<lparr>path_str = ''/app/workspace/foo.py'', suffix = ''.py'',
           read_text = Inr (join_nl [''def foo():'', ''    a = 1'', ''    b = 2'',
                                     ''    return a + b'', ''x = foo()''])\<rparr>)
     = Inr [\<lparr>content = join_nl [''def foo():'', ''    a = 1'', ''    b = 2'',
                                 ''    return a + b'', ''x = foo()''],
              start_line = 1, end_line = 5, type = ''function'', language = ''python''\<rparr>]"
  by code_simp

end
